theory Spec2Isabelle
  imports Main "HOL-Library.Sublist"
begin

section \<open>Time and schedules (js/models.js)\<close>

text \<open>
  Instants are JavaScript timestamps: integer milliseconds since the epoch. The ISO strings
  the code stores (\<^verbatim>\<open>toISOString\<close>, \<^verbatim>\<open>new Date(iso).getTime()\<close>) carry exactly one
  timestamp each, so a stored instant is modelled by its timestamp and \<^verbatim>\<open>null\<close> by \<open>None\<close>.
\<close>

type_synonym timestamp = int

datatype timing_type = Once | Recurring

record timing =
  type :: timing_type
  daysOfWeek :: "int list"
  time :: "(int \<times> int) option"
  dateTime :: "timestamp option"

record settings =
  reminderMinutesBefore :: int
  autoOpen :: bool
  enabled :: bool

record metadata =
  lastTriggeredAt :: "timestamp option"
  nextTriggerAt :: "timestamp option"

record schedule =
  schedule_id :: string
  favoriteId :: string
  timing :: timing
  settings :: settings
  metadata :: metadata

text \<open>
  The time zone of the host is a parameter. \<open>toLocal\<close> is the local time value of an instant
  (\<open>t\<close> plus the zone's offset at \<open>t\<close>), from which \<^verbatim>\<open>getDate\<close>, \<^verbatim>\<open>getDay\<close> and
  \<^verbatim>\<open>getHours\<close> read; \<open>fromLocal\<close> is the instant that \<^verbatim>\<open>setDate\<close> and \<^verbatim>\<open>setHours\<close> give
  to a local time value (the value minus the zone's offset for that local time, which at a
  daylight-saving gap is the offset before the change).
\<close>

record zone =
  toLocal :: "timestamp \<Rightarrow> int"
  fromLocal :: "int \<Rightarrow> timestamp"

text \<open>A zone whose offset never changes: \<open>off\<close> milliseconds ahead of UTC.\<close>

definition fixedZone :: "int \<Rightarrow> zone" where
  "fixedZone off = \<lparr>toLocal = (\<lambda>t. t + off), fromLocal = (\<lambda>w. w - off)\<rparr>"

definition msPerDay :: int where
  "msPerDay = 24 * 60 * 60 * 1000"

text \<open>
  The local calendar day (days since the epoch) of \<^verbatim>\<open>checkDate\<close> after
  \<^verbatim>\<open>checkDate.setDate(checkDate.getDate() + i)\<close>: the local time value of \<open>now\<close> moved by
  \<open>i\<close> days, turned into an instant and read back.
\<close>

definition checkDay :: "zone \<Rightarrow> timestamp \<Rightarrow> nat \<Rightarrow> int" where
  "checkDay z now i =
     toLocal z (fromLocal z (toLocal z now + int i * msPerDay)) div msPerDay"

text \<open>\<^verbatim>\<open>getDay()\<close>: 0 is Sunday; the first of January 1970 was a Thursday.\<close>

definition getDay :: "int \<Rightarrow> int" where
  "getDay d = (d + 4) mod 7"

text \<open>
  The instant of \<^verbatim>\<open>checkDate\<close> after \<^verbatim>\<open>setHours(hours, minutes, 0, 0)\<close> on that day, minus
  the reminder offset.
\<close>

definition candidate :: "zone \<Rightarrow> timestamp \<Rightarrow> int \<times> int \<Rightarrow> int \<Rightarrow> nat \<Rightarrow> timestamp" where
  "candidate z now hm reminderOffset i =
     fromLocal z (checkDay z now i * msPerDay + fst hm * 3600000 + snd hm * 60000)
       - reminderOffset"

text \<open>The loop \<^verbatim>\<open>for (let i = 0; i < 7; i++)\<close> of \<^verbatim>\<open>calculateNextTrigger\<close>.\<close>

function checkDays :: "zone \<Rightarrow> timestamp \<Rightarrow> int \<times> int \<Rightarrow> int list \<Rightarrow> int \<Rightarrow> nat \<Rightarrow> timestamp option" where
  "checkDays z now hm days reminderOffset i =
     (if i < 7 then
        (if getDay (checkDay z now i) \<in> set days
            \<and> candidate z now hm reminderOffset i > now
         then Some (candidate z now hm reminderOffset i)
         else checkDays z now hm days reminderOffset (Suc i))
      else None)"
  by pat_completeness auto
termination
  by (relation "measure (\<lambda>(z, now, hm, days, reminderOffset, i). 7 - i)") auto

declare checkDays.simps [simp del]

text \<open>
  \<^verbatim>\<open>calculateNextTrigger(data)\<close>, with the clock reading \<^verbatim>\<open>new Date()\<close> as the argument
  \<open>now\<close>. The argument \<open>reminder\<close> is \<^verbatim>\<open>data.reminderMinutesBefore || 0\<close>.
\<close>

definition calculateNextTrigger :: "zone \<Rightarrow> timestamp \<Rightarrow> timing \<Rightarrow> int \<Rightarrow> timestamp option" where
  "calculateNextTrigger z now data reminder =
     (let reminderOffset = reminder * 60 * 1000 in
      case type data of
        Once \<Rightarrow>
          (case dateTime data of
             None \<Rightarrow> None
           | Some dt \<Rightarrow>
               (let triggerTime = dt - reminderOffset
                in if triggerTime > now then Some triggerTime else None))
      | Recurring \<Rightarrow>
          (case time data of
             None \<Rightarrow> None
           | Some hm \<Rightarrow>
               if daysOfWeek data = [] then None
               else checkDays z now hm (sort (daysOfWeek data)) reminderOffset 0))"

text \<open>
  The filter callback of \<^verbatim>\<open>getDueSchedules\<close>. A missing \<^verbatim>\<open>lastTriggeredAt\<close> reads as
  timestamp 0.
\<close>

definition isDue :: "timestamp \<Rightarrow> schedule \<Rightarrow> bool" where
  "isDue now schedule =
     (let threshold = 30 * 1000 in
      if \<not> enabled (settings schedule) then False
      else case nextTriggerAt (metadata schedule) of
        None \<Rightarrow> False
      | Some triggerTime \<Rightarrow>
          (let lastTriggered = (case lastTriggeredAt (metadata schedule) of
                                  Some l \<Rightarrow> l | None \<Rightarrow> 0)
           in triggerTime \<le> now \<and> triggerTime > now - threshold \<and> lastTriggered < triggerTime))"

definition getDueSchedules :: "timestamp \<Rightarrow> schedule list \<Rightarrow> schedule list" where
  "getDueSchedules now schedules = filter (isDue now) schedules"

text \<open>
  \<^verbatim>\<open>markTriggered(id)\<close>: the first schedule with that id is updated, an unknown id changes
  nothing. \<open>t1\<close> is the clock reading stored in \<^verbatim>\<open>lastTriggeredAt\<close>, \<open>t2\<close> the later
  reading inside \<^verbatim>\<open>calculateNextTrigger\<close>, which is called without \<^verbatim>\<open>dateTime\<close>.
\<close>

definition markOne :: "zone \<Rightarrow> timestamp \<Rightarrow> timestamp \<Rightarrow> schedule \<Rightarrow> schedule" where
  "markOne z t1 t2 schedule =
     (let s1 = schedule\<lparr>metadata := (metadata schedule)\<lparr>lastTriggeredAt := Some t1\<rparr>\<rparr>
      in case type (timing s1) of
           Once \<Rightarrow> s1\<lparr>settings := (settings s1)\<lparr>enabled := False\<rparr>,
                      metadata := (metadata s1)\<lparr>nextTriggerAt := None\<rparr>\<rparr>
         | Recurring \<Rightarrow>
             s1\<lparr>metadata := (metadata s1)
                   \<lparr>nextTriggerAt :=
                      calculateNextTrigger z t2 ((timing s1)\<lparr>dateTime := None\<rparr>)
                        (reminderMinutesBefore (settings s1))\<rparr>\<rparr>)"

fun markTriggered :: "zone \<Rightarrow> timestamp \<Rightarrow> timestamp \<Rightarrow> string \<Rightarrow> schedule list \<Rightarrow> schedule list" where
  "markTriggered z t1 t2 i [] = []"
| "markTriggered z t1 t2 i (s # ss) =
     (if schedule_id s = i then markOne z t1 t2 s # ss
      else s # markTriggered z t1 t2 i ss)"

section \<open>The scheduler (js/scheduler.js)\<close>

text \<open>
  A favorite, with the fields of its nested objects \<^verbatim>\<open>restaurant\<close> and
  \<^verbatim>\<open>orderDetails\<close> that the scheduler and the automation read.
\<close>

record favorite =
  favorite_id :: string
  restaurant_name :: string
  restaurant_storeUrl :: string
  orderDetails_items :: "string list"
  orderDetails_specialInstructions :: string

text \<open>
  The state the scheduler works on: the stored schedules and favorites, the in-memory snooze
  map, and two logs of what it did: the notifications shown (schedule id and the
  \<^verbatim>\<open>missed\<close> flag) and the favorites handed to \<^verbatim>\<open>DoorDash.triggerOrder\<close> by auto-open.
  One synchronous handler run is evaluated at one clock reading \<open>now\<close>.
\<close>

record app =
  schedules :: "schedule list"
  favorites :: "favorite list"
  snoozedSchedules :: "string \<rightharpoonup> timestamp"
  notifications :: "(string \<times> bool) list"
  autoOrders :: "string list"

definition triggerSchedule :: "zone \<Rightarrow> timestamp \<Rightarrow> schedule \<Rightarrow> bool \<Rightarrow> app \<Rightarrow> app" where
  "triggerSchedule z now schedule missed st =
     (case find (\<lambda>f. favorite_id f = favoriteId schedule) (favorites st) of
        None \<Rightarrow> st
      | Some fav \<Rightarrow>
          st\<lparr>schedules := markTriggered z now now (schedule_id schedule) (schedules st),
             notifications := notifications st @ [(schedule_id schedule, missed)],
             autoOrders := (if autoOpen (settings schedule)
                            then autoOrders st @ [favorite_id fav] else autoOrders st)\<rparr>)"

text \<open>The test \<^verbatim>\<open>snoozeEnd && Date.now() < snoozeEnd\<close> of \<^verbatim>\<open>checkSchedules\<close>.\<close>

definition stillSnoozed :: "(string \<rightharpoonup> timestamp) \<Rightarrow> timestamp \<Rightarrow> string \<Rightarrow> bool" where
  "stillSnoozed snoozed now i =
     (case snoozed i of None \<Rightarrow> False | Some snoozeEnd \<Rightarrow> snoozeEnd \<noteq> 0 \<and> now < snoozeEnd)"

definition checkOne :: "zone \<Rightarrow> timestamp \<Rightarrow> app \<Rightarrow> schedule \<Rightarrow> app" where
  "checkOne z now st schedule =
     (if stillSnoozed (snoozedSchedules st) now (schedule_id schedule) then st
      else triggerSchedule z now schedule False
             (st\<lparr>snoozedSchedules := (snoozedSchedules st)(schedule_id schedule := None)\<rparr>))"

definition checkSchedules :: "zone \<Rightarrow> timestamp \<Rightarrow> app \<Rightarrow> app" where
  "checkSchedules z now st = foldl (checkOne z now) st (getDueSchedules now (schedules st))"

definition missedOne :: "zone \<Rightarrow> timestamp \<Rightarrow> app \<Rightarrow> schedule \<Rightarrow> app" where
  "missedOne z now st schedule =
     (let missedWindow = 5 * 60 * 1000 in
      if \<not> enabled (settings schedule) then st
      else case nextTriggerAt (metadata schedule) of
        None \<Rightarrow> st
      | Some triggerTime \<Rightarrow>
          (let lastTriggered = (case lastTriggeredAt (metadata schedule) of
                                  Some l \<Rightarrow> l | None \<Rightarrow> 0)
           in if triggerTime < now \<and> triggerTime > now - missedWindow
                 \<and> lastTriggered < triggerTime
              then triggerSchedule z now schedule True st
              else st))"

definition checkMissedReminders :: "zone \<Rightarrow> timestamp \<Rightarrow> app \<Rightarrow> app" where
  "checkMissedReminders z now st = foldl (missedOne z now) st (schedules st)"

definition snooze :: "timestamp \<Rightarrow> string \<Rightarrow> int \<Rightarrow> app \<Rightarrow> app" where
  "snooze now scheduleId minutes st =
     st\<lparr>snoozedSchedules := (snoozedSchedules st)(scheduleId \<mapsto> now + minutes * 60 * 1000)\<rparr>"

section \<open>Fuzzy matching of item names (server/puppeteer/autoorder.js)\<close>

text \<open>
  Strings are lists of 8-bit characters, read as the code units 0 to 255 of a JavaScript
  string. \<^verbatim>\<open>\w\<close> is \<^verbatim>\<open>[A-Za-z0-9_]\<close>. The characters of \<^verbatim>\<open>\s\<close> in that range (also what
  \<^verbatim>\<open>trim\<close> removes) are tab, line feed, vertical tab, form feed, carriage return, space and
  the no-break space 160. \<^verbatim>\<open>toLowerCase\<close> moves the letters A to Z and the accented capitals
  192 to 222 (without the sign 215) up by 32.
\<close>

definition isUpper :: "char \<Rightarrow> bool" where
  "isUpper c = (65 \<le> (of_char c :: nat) \<and> (of_char c :: nat) \<le> 90)"

definition isLower :: "char \<Rightarrow> bool" where
  "isLower c = (97 \<le> (of_char c :: nat) \<and> (of_char c :: nat) \<le> 122)"

definition isDigit :: "char \<Rightarrow> bool" where
  "isDigit c = (48 \<le> (of_char c :: nat) \<and> (of_char c :: nat) \<le> 57)"

definition isWordChar :: "char \<Rightarrow> bool" where
  "isWordChar c = (isUpper c \<or> isLower c \<or> isDigit c \<or> c = CHR ''_'')"

definition isSpaceChar :: "char \<Rightarrow> bool" where
  "isSpaceChar c = ((9 \<le> (of_char c :: nat) \<and> (of_char c :: nat) \<le> 13) \<or> c = CHR '' ''
                    \<or> (of_char c :: nat) = 160)"

definition isAccentedUpper :: "char \<Rightarrow> bool" where
  "isAccentedUpper c = (192 \<le> (of_char c :: nat) \<and> (of_char c :: nat) \<le> 222
                         \<and> (of_char c :: nat) \<noteq> 215)"

definition toLowerChar :: "char \<Rightarrow> char" where
  "toLowerChar c =
     (if isUpper c \<or> isAccentedUpper c then char_of ((of_char c :: nat) + 32) else c)"

definition toLowerCase :: "string \<Rightarrow> string" where
  "toLowerCase s = map toLowerChar s"

definition trim :: "string \<Rightarrow> string" where
  "trim s = rev (dropWhile isSpaceChar (rev (dropWhile isSpaceChar s)))"

text \<open>\<^verbatim>\<open>replace(/[^\w\s]/g, '')\<close>\<close>

definition stripNonWord :: "string \<Rightarrow> string" where
  "stripNonWord s = filter (\<lambda>c. isWordChar c \<or> isSpaceChar c) s"

text \<open>\<^verbatim>\<open>replace(/\s+/g, ' ')\<close>: every maximal run of whitespace becomes one space.\<close>

function collapseSpaces :: "string \<Rightarrow> string" where
  "collapseSpaces [] = []"
| "collapseSpaces (c # cs) =
     (if isSpaceChar c then CHR '' '' # collapseSpaces (dropWhile isSpaceChar cs)
      else c # collapseSpaces cs)"
  by pat_completeness auto
termination
  by (relation "measure length") (auto simp: length_dropWhile_le less_Suc_eq_le)

definition normalize_str :: "string \<Rightarrow> string" where
  "normalize_str str = collapseSpaces (stripNonWord (trim (toLowerCase str)))"

text \<open>\<^verbatim>\<open>hay.includes(needle)\<close>: the needle occurs at some position of the haystack.\<close>

fun startsWith :: "string \<Rightarrow> string \<Rightarrow> bool" where
  "startsWith hay [] = True"
| "startsWith [] (n # ns) = False"
| "startsWith (h # hs) (n # ns) = (h = n \<and> startsWith hs ns)"

fun includes_str :: "string \<Rightarrow> string \<Rightarrow> bool" where
  "includes_str [] needle = (needle = [])"
| "includes_str (h # hs) needle = (startsWith (h # hs) needle \<or> includes_str hs needle)"

text \<open>
  \<^verbatim>\<open>s.split(' ')\<close>: the pieces between single spaces, empty pieces included; the first
  argument collects the current piece in reverse.
\<close>

fun splitFrom :: "string \<Rightarrow> string \<Rightarrow> string list" where
  "splitFrom w [] = [rev w]"
| "splitFrom w (c # cs) =
     (if c = CHR '' '' then rev w # splitFrom [] cs else splitFrom (c # w) cs)"

definition split_space :: "string \<Rightarrow> string list" where
  "split_space s = splitFrom [] s"

text \<open>
  \<^verbatim>\<open>fuzzyMatch(menuItemName, searchName)\<close>. The comparison
  \<^verbatim>\<open>matchCount >= searchWords.length * 0.7\<close> is between an integer and a double product; for
  every length below \<open>2^50\<close> it holds exactly when \<open>7 * length \<le> 10 * matchCount\<close>, which is
  what the model computes.
\<close>

definition fuzzyMatch :: "string \<Rightarrow> string \<Rightarrow> bool" where
  "fuzzyMatch menuItemName searchName =
     (if menuItemName = [] \<or> searchName = [] then False
      else
        let menuNorm = normalize_str menuItemName;
            searchNorm = normalize_str searchName
        in if menuNorm = searchNorm then True
           else if includes_str menuNorm searchNorm \<or> includes_str searchNorm menuNorm then True
           else
             let searchWords = filter (\<lambda>w. length w > 2) (split_space searchNorm);
                 menuWords = split_space menuNorm
             in if length searchWords > 0 then
                  (let matchCount = length (filter (\<lambda>sw.
                         list_ex (\<lambda>mw. includes_str mw sw \<or> includes_str sw mw) menuWords)
                       searchWords)
                   in 7 * length searchWords \<le> 10 * matchCount)
                else False)"




section \<open>The automation engine (server/puppeteer/autoorder.js)\<close>

text \<open>
  The browser is a parameter of the model. \<open>'p\<close> is the type of page states; the record
  says what Puppeteer and the remote site do: launching (the new page, or the message of the
  error thrown), navigating (the resulting \<^verbatim>\<open>page.url()\<close> and page, or an error), whether the
  login dialog shows, waiting up to 120 s for it to disappear, and the two item strategies
  \<^verbatim>\<open>trySearchAndAdd\<close> and \<^verbatim>\<open>tryScrollAndFind\<close>, which catch every error and return a
  boolean. \<open>stackTrace\<close> is the text of \<^verbatim>\<open>error.stack\<close> for a given message.
\<close>

record 'p browser =
  launch :: "string + 'p"
  goto :: "'p \<Rightarrow> string \<Rightarrow> string + (string \<times> 'p)"
  loginPrompt :: "'p \<Rightarrow> bool"
  waitForLogin :: "'p \<Rightarrow> string + 'p"
  trySearchAndAdd :: "'p \<Rightarrow> string \<Rightarrow> bool \<times> 'p"
  tryScrollAndFind :: "'p \<Rightarrow> string \<Rightarrow> bool \<times> 'p"
  stackTrace :: "string \<Rightarrow> string"

definition tryAddItem :: "'p browser \<Rightarrow> 'p \<Rightarrow> string \<Rightarrow> bool \<times> 'p" where
  "tryAddItem b page itemName =
     (let (searchAdded, page1) = trySearchAndAdd b page itemName in
      if searchAdded then (True, page1)
      else
        let (scrollAdded, page2) = tryScrollAndFind b page1 itemName in
        if scrollAdded then (True, page2) else (False, page2))"

text \<open>The loop \<^verbatim>\<open>for (const itemName of items)\<close> with its counter \<^verbatim>\<open>itemsAdded\<close>.\<close>

fun addItems :: "'p browser \<Rightarrow> 'p \<Rightarrow> string list \<Rightarrow> nat \<Rightarrow> nat \<times> 'p" where
  "addItems b page [] itemsAdded = (itemsAdded, page)"
| "addItems b page (itemName # rest) itemsAdded =
     (let (added, page1) = tryAddItem b page itemName in
      addItems b page1 rest (if added then itemsAdded + 1 else itemsAdded))"

text \<open>
  For comparison with the counter: the outcome of the resolution cascade for each requested
  item, in order. An item is resolved when the search strategy adds it or, failing that, the
  scroll strategy does on the page the search left; the next item starts on the page the
  cascade left.
\<close>

fun cascadeResults :: "'p browser \<Rightarrow> 'p \<Rightarrow> string list \<Rightarrow> bool list" where
  "cascadeResults b page [] = []"
| "cascadeResults b page (itemName # rest) =
     (if fst (trySearchAndAdd b page itemName)
      then True # cascadeResults b (snd (trySearchAndAdd b page itemName)) rest
      else fst (tryScrollAndFind b (snd (trySearchAndAdd b page itemName)) itemName)
           # cascadeResults b
               (snd (tryScrollAndFind b (snd (trySearchAndAdd b page itemName)) itemName)) rest)"

fun showNat :: "nat \<Rightarrow> string" where
  "showNat n =
     (if n < 10 then [char_of (48 + n)] else showNat (n div 10) @ [char_of (48 + n mod 10)])"

declare showNat.simps [simp del]

record order_result =
  success :: bool
  message :: string
  itemsAdded :: nat

text \<open>
  \<^verbatim>\<open>automateOrder(orderData)\<close>, of which only \<^verbatim>\<open>storeUrl\<close> and \<^verbatim>\<open>items\<close> decide the
  result. An error thrown inside is rethrown to the caller: the result \<open>Inl\<close> with its
  message. The last argument and the second result count the calls of
  \<^verbatim>\<open>puppeteer.launch\<close>; the browser is never closed.
\<close>

definition automateOrder ::
  "'p browser \<Rightarrow> string \<Rightarrow> string list \<Rightarrow> nat \<Rightarrow> (string + order_result) \<times> nat" where
  "automateOrder b storeUrl items launches =
     (case launch b of
        Inl err \<Rightarrow> (Inl err, launches + 1)
      | Inr page \<Rightarrow>
          (case goto b page storeUrl of
             Inl err \<Rightarrow> (Inl err, launches + 1)
           | Inr (pageUrl, page1) \<Rightarrow>
               if \<not> includes_str pageUrl ''doordash.com''
               then (Inl ''Navigation failed - not on DoorDash'', launches + 1)
               else
                 (case (if loginPrompt b page1 then waitForLogin b page1 else Inr page1) of
                    Inl err \<Rightarrow> (Inl err, launches + 1)
                  | Inr page2 \<Rightarrow>
                      if items = [] then
                        (Inr \<lparr>success = True, message = ''Store page opened successfully'',
                              itemsAdded = 0\<rparr>, launches + 1)
                      else
                        (let (n, page3) = addItems b page2 items 0 in
                         (Inr \<lparr>success = True,
                               message = ''Added '' @ showNat n @ '' of ''
                                 @ showNat (length items) @ '' items to cart'',
                               itemsAdded = n\<rparr>, launches + 1)))))"

section \<open>The order endpoint (server/server.js)\<close>

text \<open>
  The platform's \<^verbatim>\<open>URL\<close> constructor is a parameter \<open>newURL\<close>: the parsed URL, or \<open>None\<close>
  when it throws. A JSON body is a record of optional fields.
\<close>

record url =
  hostname :: string
  pathname :: string

record order_request =
  req_storeUrl :: "string option"
  req_storeName :: "string option"
  req_items :: "string list option"
  req_specialInstructions :: "string option"

record response_body =
  body_success :: "bool option"
  body_message :: "string option"
  body_itemsAdded :: "nat option"
  body_error :: "string option"
  body_details :: "string option"

record response =
  status :: nat
  body :: response_body

definition emptyBody :: response_body where
  "emptyBody = \<lparr>body_success = None, body_message = None, body_itemsAdded = None,
                 body_error = None, body_details = None\<rparr>"

definition errorResponse :: "nat \<Rightarrow> string \<Rightarrow> response" where
  "errorResponse code err = \<lparr>status = code, body = emptyBody\<lparr>body_error := Some err\<rparr>\<rparr>"

text \<open>
  The handler of \<^verbatim>\<open>POST /api/order\<close>. \<open>development\<close> is
  \<^verbatim>\<open>process.env.NODE_ENV === 'development'\<close>; the number threaded through counts the
  browser launches.
\<close>

definition postOrder ::
  "(string \<Rightarrow> url option) \<Rightarrow> 'p browser \<Rightarrow> bool \<Rightarrow> order_request \<Rightarrow> nat \<Rightarrow> response \<times> nat" where
  "postOrder newURL b development req launches =
     (case req_storeUrl req of
        None \<Rightarrow> (errorResponse 400 ''Store URL is required'', launches)
      | Some storeUrl \<Rightarrow>
          if storeUrl = [] then (errorResponse 400 ''Store URL is required'', launches)
          else
            (case newURL storeUrl of
               None \<Rightarrow> (errorResponse 400 ''Invalid URL format'', launches)
             | Some u \<Rightarrow>
                 if \<not> includes_str (hostname u) ''doordash.com''
                 then (errorResponse 400 ''Invalid DoorDash URL'', launches)
                 else
                   (case automateOrder b storeUrl
                           (case req_items req of Some items \<Rightarrow> items | None \<Rightarrow> []) launches of
                      (Inr result, launches1) \<Rightarrow>
                        (\<lparr>status = 200,
                          body = emptyBody
                            \<lparr>body_success := Some True,
                             body_message := Some (if message result = [] then
                                 ''Order automation completed'' else message result),
                             body_itemsAdded := Some (itemsAdded result)\<rparr>\<rparr>, launches1)
                    | (Inl err, launches1) \<Rightarrow>
                        (\<lparr>status = 500,
                          body = emptyBody
                            \<lparr>body_error := Some (if err = [] then ''Automation failed'' else err),
                             body_details := (if development then Some (stackTrace b err)
                                              else None)\<rparr>\<rparr>, launches1))))"

text \<open>
  What the repository calls a valid DoorDash store URL:
  \<^verbatim>\<open>FavoritesModel.isValidDoorDashUrl\<close> (js/models.js).
\<close>

definition isValidDoorDashUrl :: "(string \<Rightarrow> url option) \<Rightarrow> string \<Rightarrow> bool" where
  "isValidDoorDashUrl newURL u =
     (if u = [] then False
      else case newURL u of
        None \<Rightarrow> False
      | Some parsed \<Rightarrow>
          (hostname parsed = ''www.doordash.com'' \<or> hostname parsed = ''doordash.com'')
          \<and> includes_str (pathname parsed) ''/store/'')"

section \<open>Triggering an order from the page (js/doordash.js)\<close>

datatype order_status = Completed | Partial | Failed

text \<open>
  \<open>history\<close> is the log of the entries passed to \<^verbatim>\<open>OrderHistoryModel.add\<close>, \<open>ordered\<close> the
  log of \<^verbatim>\<open>FavoritesModel.markOrdered\<close>, \<open>fetches\<close> counts the requests sent to the server,
  and \<open>running\<close> counts the invocations of \<^verbatim>\<open>triggerOrder\<close> that have passed the guard and
  not yet reached their \<^verbatim>\<open>finally\<close> block.
\<close>

record history_entry =
  h_favoriteId :: string
  h_items :: "string list"
  h_itemsAdded :: nat
  h_status :: order_status
  h_triggeredBy :: string
  h_errorMessage :: "string option"

record client =
  isAutomating :: bool
  running :: nat
  fetches :: nat
  history :: "history_entry list"
  ordered :: "string list"

record trigger_result =
  tr_success :: bool
  tr_message :: "string option"

text \<open>The lines of \<^verbatim>\<open>triggerOrder\<close> that compute the logged count and status.\<close>

definition loggedOutcome :: "nat option \<Rightarrow> nat \<Rightarrow> nat \<times> order_status" where
  "loggedOutcome resultItemsAdded totalItems =
     (let itemsAdded = (case resultItemsAdded of
                          Some n \<Rightarrow> if n \<noteq> 0 then n else totalItems
                        | None \<Rightarrow> totalItems)
      in (itemsAdded,
          if itemsAdded = 0 then Failed
          else if itemsAdded < totalItems then Partial
          else Completed))"

text \<open>The guard at the head of \<^verbatim>\<open>triggerOrder\<close>, which runs before the first \<^verbatim>\<open>await\<close>.\<close>

definition triggerOrder_enter :: "client \<Rightarrow> trigger_result option \<times> client" where
  "triggerOrder_enter c =
     (if isAutomating c
      then (Some \<lparr>tr_success = False, tr_message = Some ''Already automating''\<rparr>, c)
      else (None, c\<lparr>isAutomating := True, running := running c + 1\<rparr>))"

definition triggerOrder_finally :: "client \<Rightarrow> client" where
  "triggerOrder_finally c = c\<lparr>isAutomating := False, running := running c - 1\<rparr>"

definition failedOrder :: "favorite \<Rightarrow> string \<Rightarrow> string \<Rightarrow> client \<Rightarrow> trigger_result \<times> client" where
  "failedOrder fav triggeredBy err c =
     (\<lparr>tr_success = False, tr_message = Some err\<rparr>,
      triggerOrder_finally
        (c\<lparr>history := history c @
             [\<lparr>h_favoriteId = favorite_id fav, h_items = orderDetails_items fav,
               h_itemsAdded = 0, h_status = Failed, h_triggeredBy = triggeredBy,
               h_errorMessage = Some err\<rparr>]\<rparr>))"

text \<open>
  The \<^verbatim>\<open>try\<close>/\<^verbatim>\<open>catch\<close>/\<^verbatim>\<open>finally\<close> of \<^verbatim>\<open>triggerOrder\<close>. \<open>health\<close> is the answer of
  \<^verbatim>\<open>checkServer\<close>; \<open>server\<close> is what \<^verbatim>\<open>fetch\<close> yields for the order request: a response, or
  the message of the error thrown.
\<close>

definition triggerOrder_run ::
  "favorite \<Rightarrow> string \<Rightarrow> bool \<Rightarrow> (order_request \<Rightarrow> string + response) \<Rightarrow> client
     \<Rightarrow> trigger_result \<times> client" where
  "triggerOrder_run fav triggeredBy health server c =
     (let c1 = c\<lparr>fetches := fetches c + 1\<rparr> in
      if \<not> health then
        failedOrder fav triggeredBy
          ''Automation server is not running. Start it with: cd server && npm start'' c1
      else
        let c2 = c1\<lparr>fetches := fetches c1 + 1\<rparr>;
            req = \<lparr>req_storeUrl = Some (restaurant_storeUrl fav),
                   req_storeName = Some (restaurant_name fav),
                   req_items = Some (orderDetails_items fav),
                   req_specialInstructions = Some (orderDetails_specialInstructions fav)\<rparr>
        in case server req of
             Inl err \<Rightarrow> failedOrder fav triggeredBy err c2
           | Inr resp \<Rightarrow>
               if \<not> (200 \<le> status resp \<and> status resp \<le> 299) then
                 failedOrder fav triggeredBy
                   (case body_error (body resp) of
                      Some e \<Rightarrow> if e = [] then ''Order automation failed'' else e
                    | None \<Rightarrow> ''Order automation failed'') c2
               else
                 let (itemsAdded, orderStatus) =
                       loggedOutcome (body_itemsAdded (body resp)) (length (orderDetails_items fav))
                 in (\<lparr>tr_success = True, tr_message = body_message (body resp)\<rparr>,
                     triggerOrder_finally
                       (c2\<lparr>ordered := ordered c2 @ [favorite_id fav],
                           history := history c2 @
                             [\<lparr>h_favoriteId = favorite_id fav,
                               h_items = orderDetails_items fav,
                               h_itemsAdded = itemsAdded, h_status = orderStatus,
                               h_triggeredBy = triggeredBy, h_errorMessage = None\<rparr>]\<rparr>)))"

text \<open>One call of \<^verbatim>\<open>triggerOrder\<close> that runs to its end with no other call in between.\<close>

definition triggerOrder ::
  "favorite \<Rightarrow> string \<Rightarrow> bool \<Rightarrow> (order_request \<Rightarrow> string + response) \<Rightarrow> client
     \<Rightarrow> trigger_result \<times> client" where
  "triggerOrder fav triggeredBy health server c =
     (case triggerOrder_enter c of
        (Some rejected, c1) \<Rightarrow> (rejected, c1)
      | (None, c1) \<Rightarrow> triggerOrder_run fav triggeredBy health server c1)"

text \<open>
  The page as an event loop: at any time a request may enter \<^verbatim>\<open>triggerOrder\<close>, and an
  invocation that is running may reach its end. Other handlers run between the
  \<^verbatim>\<open>await\<close>s of a running invocation, never inside its synchronous head.
\<close>

definition initialClient :: client where
  "initialClient = \<lparr>isAutomating = False, running = 0, fetches = 0, history = [], ordered = []\<rparr>"

inductive reachable :: "client \<Rightarrow> bool" where
  start: "reachable initialClient"
| request: "reachable c \<Longrightarrow> reachable (snd (triggerOrder_enter c))"
| finish: "reachable c \<Longrightarrow> 0 < running c
            \<Longrightarrow> reachable (snd (triggerOrder_run fav triggeredBy health server c))"

section \<open>Example data\<close>

text \<open>
  A recurring schedule for Mondays at 12:00 with no reminder offset, given its stored
  \<^verbatim>\<open>lastTriggeredAt\<close> and \<^verbatim>\<open>nextTriggerAt\<close>; its favorite; and an application state
  holding both, with no snooze entry and empty logs.
\<close>

abbreviation mondays :: "timestamp option \<Rightarrow> timestamp option \<Rightarrow> schedule" where
  "mondays lastT nextT \<equiv>
     \<lparr>schedule_id = ''s1'', favoriteId = ''f1'',
      timing = \<lparr>type = Recurring, daysOfWeek = [1], time = Some (12, 0), dateTime = None\<rparr>,
      settings = \<lparr>reminderMinutesBefore = 0, autoOpen = False, enabled = True\<rparr>,
      metadata = \<lparr>lastTriggeredAt = lastT, nextTriggerAt = nextT\<rparr>\<rparr>"

abbreviation lunch :: "string list \<Rightarrow> favorite" where
  "lunch its \<equiv>
     \<lparr>favorite_id = ''f1'', restaurant_name = ''Cafe'',
      restaurant_storeUrl = ''https://www.doordash.com/store/cafe-12345/'',
      orderDetails_items = its, orderDetails_specialInstructions = ''''\<rparr>"

abbreviation appWith :: "schedule \<Rightarrow> app" where
  "appWith s \<equiv>
     \<lparr>schedules = [s], favorites = [lunch [''A'', ''B'']], snoozedSchedules = Map.empty,
      notifications = [], autoOrders = []\<rparr>"

text \<open>
  A site on which every step of the session succeeds and the search strategy adds exactly
  the items named in \<open>resolvable\<close>; and the \<^verbatim>\<open>URL\<close> constructor on the two URLs used below.
\<close>

abbreviation siteResolving :: "string list \<Rightarrow> unit browser" where
  "siteResolving resolvable \<equiv>
     \<lparr>launch = Inr (), goto = (\<lambda>page u. Inr (u, page)), loginPrompt = (\<lambda>page. False),
      waitForLogin = (\<lambda>page. Inr page),
      trySearchAndAdd = (\<lambda>page itemName. (itemName \<in> set resolvable, page)),
      tryScrollAndFind = (\<lambda>page itemName. (False, page)),
      stackTrace = (\<lambda>err. ''Error: '' @ err)\<rparr>"

abbreviation parseExample :: "string \<Rightarrow> url option" where
  "parseExample u \<equiv>
     (if u = ''https://www.doordash.com/store/cafe-12345/''
      then Some \<lparr>hostname = ''www.doordash.com'', pathname = ''/store/cafe-12345/''\<rparr>
      else if u = ''https://doordash.com.evil.org/menu''
      then Some \<lparr>hostname = ''doordash.com.evil.org'', pathname = ''/menu''\<rparr>
      else None)"

text \<open>
  The zone of New York around the start of daylight saving time on 14 March 2021: five hours
  behind UTC before 07:00 UTC of that day, four hours behind from then on; local times of the
  skipped hour are read with the earlier offset.
\<close>

abbreviation newYork2021 :: zone where
  "newYork2021 \<equiv>
     \<lparr>toLocal = (\<lambda>t. if t < 1615705200000 then t - 18000000 else t - 14400000),
      fromLocal = (\<lambda>w. if w < 1615705200000 - 14400000 then w + 18000000 else w + 14400000)\<rparr>"

section \<open>The timing calculator\<close>

lemma checkDays_None:
  "checkDays z now hm days off i = None \<longleftrightarrow>
     (\<forall>k. i \<le> k \<and> k < 7 \<longrightarrow>
        \<not> (getDay (checkDay z now k) \<in> set days \<and> now < candidate z now hm off k))"
proof (induction z now hm days off i rule: checkDays.induct)
  case (1 z now hm days off i)
  show ?case
  proof (cases "i < 7")
    case False
    then show ?thesis by (subst checkDays.simps) auto
  next
    case True
    show ?thesis
    proof (cases "getDay (checkDay z now i) \<in> set days \<and> now < candidate z now hm off i")
      case hit: True
      with True show ?thesis
        by (subst checkDays.simps) auto
    next
      case miss: False
      from True miss have "checkDays z now hm days off i = checkDays z now hm days off (Suc i)"
        by (subst checkDays.simps) auto
      also have "\<dots> = None \<longleftrightarrow>
          (\<forall>k. Suc i \<le> k \<and> k < 7 \<longrightarrow>
             \<not> (getDay (checkDay z now k) \<in> set days \<and> now < candidate z now hm off k))"
        by (rule "1.IH" [OF True miss])
      also have "\<dots> \<longleftrightarrow>
          (\<forall>k. i \<le> k \<and> k < 7 \<longrightarrow>
             \<not> (getDay (checkDay z now k) \<in> set days \<and> now < candidate z now hm off k))"
        using miss by (metis Suc_leD Suc_leI le_neq_implies_less)
      finally show ?thesis .
    qed
  qed
qed

lemma checkDays_Some:
  "checkDays z now hm days off i = Some t \<Longrightarrow>
     \<exists>k. i \<le> k \<and> k < 7 \<and> getDay (checkDay z now k) \<in> set days
        \<and> t = candidate z now hm off k \<and> now < t
        \<and> (\<forall>j. i \<le> j \<and> j < k \<longrightarrow>
              \<not> (getDay (checkDay z now j) \<in> set days \<and> now < candidate z now hm off j))"
proof (induction z now hm days off i rule: checkDays.induct)
  case (1 z now hm days off i)
  show ?case
  proof (cases "i < 7")
    case False
    with "1.prems" show ?thesis by (simp add: checkDays.simps)
  next
    case True
    show ?thesis
    proof (cases "getDay (checkDay z now i) \<in> set days \<and> now < candidate z now hm off i")
      case hit: True
      with True "1.prems" have "t = candidate z now hm off i"
        by (subst (asm) checkDays.simps) simp
      with hit True show ?thesis by (intro exI [of _ i]) auto
    next
      case miss: False
      with True "1.prems" have "checkDays z now hm days off (Suc i) = Some t"
        by (subst (asm) checkDays.simps) simp
      from "1.IH" [OF True miss this] obtain k where k: "Suc i \<le> k" "k < 7"
        "getDay (checkDay z now k) \<in> set days" "t = candidate z now hm off k" "now < t"
        "\<forall>j. Suc i \<le> j \<and> j < k \<longrightarrow>
              \<not> (getDay (checkDay z now j) \<in> set days \<and> now < candidate z now hm off j)"
        by blast
      have "\<forall>j. i \<le> j \<and> j < k \<longrightarrow>
              \<not> (getDay (checkDay z now j) \<in> set days \<and> now < candidate z now hm off j)"
        using k(6) miss by (metis Suc_leI le_neq_implies_less)
      with k show ?thesis by (intro exI [of _ k]) auto
    qed
  qed
qed

lemma fixedZone_checkDay:
  "checkDay (fixedZone off) now k = (now + off) div 86400000 + int k"
  by (simp add: checkDay_def fixedZone_def msPerDay_def)

text \<open>
  C7. For a Once timing definition with target \<open>T\<close> and reminder offset \<open>O\<close> (minutes), the
  calculator returns \<open>T - O\<close> when that instant is strictly after \<open>now\<close> and none otherwise;
  it is a function of the timing definition and the clock reading alone, so two evaluations
  with the same inputs and the same frozen \<open>now\<close> give the same result.
\<close>

theorem once_trigger:
  "type data = Once \<Longrightarrow> dateTime data = Some T \<Longrightarrow>
     calculateNextTrigger tz now data O\<^sub>m =
       (if T - O\<^sub>m * 60000 > now then Some (T - O\<^sub>m * 60000) else None)
     \<and> (\<forall>r1 r2. r1 = calculateNextTrigger tz now data O\<^sub>m
            \<and> r2 = calculateNextTrigger tz now data O\<^sub>m \<longrightarrow> r1 = r2)"
  by (simp add: calculateNextTrigger_def)

theorem once_trigger_witness:
  "calculateNextTrigger (fixedZone 0) 1000000
     \<lparr>type = Once, daysOfWeek = [], time = None, dateTime = Some 2000000\<rparr> 15 = Some 1100000
   \<and> calculateNextTrigger (fixedZone 0) 1100000
     \<lparr>type = Once, daysOfWeek = [], time = None, dateTime = Some 2000000\<rparr> 15 = None"
proof -
  let ?d = "\<lparr>type = Once, daysOfWeek = [], time = None, dateTime = Some 2000000\<rparr>"
  have a: "type ?d = Once" and b: "dateTime ?d = Some 2000000"
    by simp_all
  from once_trigger [OF a b, of "fixedZone 0" 1000000 15, THEN conjunct1]
    once_trigger [OF a b, of "fixedZone 0" 1100000 15, THEN conjunct1]
  show ?thesis by simp
qed

text \<open>
  C4. For a Recurring timing definition with a time of day \<open>h:m\<close>, the calculator looks at
  seven calendar days: day \<open>k\<close> is the local date that \<^verbatim>\<open>setDate\<close> reaches \<open>k\<close> days after
  today, it is selected when its weekday is in the weekday set, and its candidate is the
  instant of that date at \<open>h:m\<close> local time minus the offset. The result is none exactly
  when the weekday set is empty or no selected day has a candidate strictly after \<open>now\<close>.
  Otherwise it is the candidate of the first selected day whose candidate is strictly after
  \<open>now\<close>, every selected day before it having a candidate that is not; and when the
  candidates of later days are not earlier, it is the chronologically first of all candidates
  after \<open>now\<close>. In a zone with a fixed offset the seven days are today and the six days that
  follow, and the candidates grow from day to day.
\<close>

theorem recurring_trigger:
  fixes z :: zone and now :: timestamp and data :: timing and h m O\<^sub>m :: int
  defines "day \<equiv> \<lambda>k::nat.
      toLocal z (fromLocal z (toLocal z now + int k * 86400000)) div 86400000"
  defines "selected \<equiv> \<lambda>k. (day k + 4) mod 7 \<in> set (daysOfWeek data)"
  defines "cand \<equiv> \<lambda>k.
      fromLocal z (day k * 86400000 + h * 3600000 + m * 60000) - O\<^sub>m * 60000"
  assumes "type data = Recurring" and "time data = Some (h, m)"
  shows "(calculateNextTrigger z now data O\<^sub>m = None \<longleftrightarrow>
            daysOfWeek data = [] \<or> (\<forall>k<7. selected k \<longrightarrow> cand k \<le> now))
       \<and> (\<forall>t. calculateNextTrigger z now data O\<^sub>m = Some t \<longrightarrow>
              now < t
              \<and> (\<exists>k<7. selected k \<and> t = cand k
                     \<and> (\<forall>j<k. selected j \<longrightarrow> cand j \<le> now)))
       \<and> ((\<forall>i j. i \<le> j \<and> j < 7 \<longrightarrow> cand i \<le> cand j) \<longrightarrow>
             (\<forall>t. calculateNextTrigger z now data O\<^sub>m = Some t \<longrightarrow>
                (\<forall>j<7. selected j \<and> now < cand j \<longrightarrow> t \<le> cand j)))
       \<and> (\<forall>off. z = fixedZone off \<longrightarrow>
             (\<forall>k. day k = (now + off) div 86400000 + int k
                  \<and> cand k = ((now + off) div 86400000 + int k) * 86400000
                        + h * 3600000 + m * 60000 - off - O\<^sub>m * 60000)
             \<and> (\<forall>i j. i \<le> j \<longrightarrow> cand i \<le> cand j))"
proof -
  have day: "day k = checkDay z now k" for k
    by (simp add: day_def checkDay_def msPerDay_def)
  have sel: "selected k \<longleftrightarrow> getDay (checkDay z now k) \<in> set (sort (daysOfWeek data))" for k
    by (simp add: selected_def day getDay_def)
  have cand: "cand k = candidate z now (h, m) (O\<^sub>m * 60000) k" for k
    by (simp add: cand_def day candidate_def msPerDay_def)
  have fixed: "(\<forall>k. day k = (now + off) div 86400000 + int k
                  \<and> cand k = ((now + off) div 86400000 + int k) * 86400000
                        + h * 3600000 + m * 60000 - off - O\<^sub>m * 60000)
             \<and> (\<forall>i j. i \<le> j \<longrightarrow> cand i \<le> cand j)"
    if "z = fixedZone off" for off
  proof -
    have d: "day k = (now + off) div 86400000 + int k" for k
      by (simp add: day that fixedZone_checkDay)
    have c: "cand k = ((now + off) div 86400000 + int k) * 86400000
                        + h * 3600000 + m * 60000 - off - O\<^sub>m * 60000" for k
      unfolding cand_def d by (simp add: that fixedZone_def)
    have "cand i \<le> cand j" if "i \<le> j" for i j
      unfolding c using that by simp
    with d c show ?thesis by blast
  qed
  show ?thesis
  proof (cases "daysOfWeek data = []")
    case True
    with assms(4,5) have "calculateNextTrigger z now data O\<^sub>m = None"
      by (simp add: calculateNextTrigger_def)
    with True fixed show ?thesis by simp
  next
    case False
    with assms(4,5) have eq: "calculateNextTrigger z now data O\<^sub>m
        = checkDays z now (h, m) (sort (daysOfWeek data)) (O\<^sub>m * 60000) 0"
      by (simp add: calculateNextTrigger_def mult.commute)
    have none: "calculateNextTrigger z now data O\<^sub>m = None \<longleftrightarrow>
        (\<forall>k<7. selected k \<longrightarrow> cand k \<le> now)"
      unfolding eq checkDays_None sel cand by (auto simp: not_less)
    have some: "now < t
          \<and> (\<exists>k<7. selected k \<and> t = cand k \<and> (\<forall>j<k. selected j \<longrightarrow> cand j \<le> now))"
      if "calculateNextTrigger z now data O\<^sub>m = Some t" for t
    proof -
      from that have "checkDays z now (h, m) (sort (daysOfWeek data)) (O\<^sub>m * 60000) 0 = Some t"
        by (simp add: eq)
      from checkDays_Some [OF this] show ?thesis
        unfolding sel cand by (auto simp: not_less)
    qed
    have first: "t \<le> cand j"
      if mono: "\<forall>i j. i \<le> j \<and> j < 7 \<longrightarrow> cand i \<le> cand j"
        and t: "calculateNextTrigger z now data O\<^sub>m = Some t"
        and j: "j < 7" "selected j" "now < cand j" for t j
    proof -
      from some [OF t] obtain k where k: "k < 7" "t = cand k"
        "\<forall>i<k. selected i \<longrightarrow> cand i \<le> now"
        by blast
      from k(3) j(2,3) have "\<not> j < k" by auto
      then have "k \<le> j" by simp
      with mono j(1) k(2) show ?thesis by blast
    qed
    from False none some first fixed show ?thesis by blast
  qed
qed

theorem recurring_trigger_witness:
  "(calculateNextTrigger (fixedZone 0) 295200000
      \<lparr>type = Recurring, daysOfWeek = [1, 3], time = Some (12, 0), dateTime = None\<rparr> 0
      = Some 388800000
    \<and> (295200000 div 86400000 + 4) mod 7 = (0::int)
    \<and> (295200000::int) = 3 * 86400000 + 10 * 3600000
    \<and> (388800000::int) = 4 * 86400000 + 12 * 3600000)
   \<and> (calculateNextTrigger (fixedZone (- 18000000)) 928800000
      \<lparr>type = Recurring, daysOfWeek = [0, 1, 3], time = Some (12, 30), dateTime = None\<rparr> 15
      = Some 1012500000
    \<and> ((928800000 - 18000000) div 86400000 + 4) mod 7 = (0::int)
    \<and> (928800000::int) = 10 * 86400000 + 13 * 3600000 + 18000000
    \<and> (1012500000::int) = 11 * 86400000 + 12 * 3600000 + 30 * 60000 + 18000000 - 15 * 60000)
   \<and> (calculateNextTrigger newYork2021 1615647600000
      \<lparr>type = Recurring, daysOfWeek = [0], time = Some (12, 0), dateTime = None\<rparr> 0
      = Some 1615737600000
    \<and> (1615647600000::int) = 1615593600000 + 10 * 3600000 + 18000000
    \<and> (1615737600000::int) = 1615680000000 + 12 * 3600000 + 14400000)
   \<and> 1012500000 \<le> fromLocal (fixedZone (- 18000000))
          (toLocal (fixedZone (- 18000000))
             (fromLocal (fixedZone (- 18000000))
                (toLocal (fixedZone (- 18000000)) 928800000 + int 3 * 86400000))
             div 86400000 * 86400000 + 12 * 3600000 + 30 * 60000) - 15 * 60000"
proof -
  let ?d1 = "\<lparr>type = Recurring, daysOfWeek = [1, 3], time = Some (12, 0), dateTime = None\<rparr>"
  let ?d2 = "\<lparr>type = Recurring, daysOfWeek = [0, 1, 3], time = Some (12, 30),
      dateTime = None\<rparr>"
  let ?d3 = "\<lparr>type = Recurring, daysOfWeek = [0], time = Some (12, 0), dateTime = None\<rparr>"
  have r1: "calculateNextTrigger (fixedZone 0) 295200000 ?d1 0 = Some 388800000"
    by code_simp
  have r2: "calculateNextTrigger (fixedZone (- 18000000)) 928800000 ?d2 15 = Some 1012500000"
    by code_simp
  have r3: "calculateNextTrigger newYork2021 1615647600000 ?d3 0 = Some 1615737600000"
    by code_simp
  have a: "type ?d2 = Recurring" and b: "time ?d2 = Some (12, 30)"
    by simp_all
  note inst = recurring_trigger [OF a b, where z = "fixedZone (- 18000000)"
      and now = 928800000 and O\<^sub>m = 15]
  have mono: "\<forall>i j. i \<le> j \<and> j < 7 \<longrightarrow>
      fromLocal (fixedZone (- 18000000))
          (toLocal (fixedZone (- 18000000))
             (fromLocal (fixedZone (- 18000000))
                (toLocal (fixedZone (- 18000000)) 928800000 + int i * 86400000))
             div 86400000 * 86400000 + 12 * 3600000 + 30 * 60000) - 15 * 60000
      \<le> fromLocal (fixedZone (- 18000000))
          (toLocal (fixedZone (- 18000000))
             (fromLocal (fixedZone (- 18000000))
                (toLocal (fixedZone (- 18000000)) 928800000 + int j * 86400000))
             div 86400000 * 86400000 + 12 * 3600000 + 30 * 60000) - 15 * 60000"
    using inst [THEN conjunct2, THEN conjunct2, THEN conjunct2, rule_format, OF refl,
        THEN conjunct2]
    by blast
  have sel3: "(toLocal (fixedZone (- 18000000))
             (fromLocal (fixedZone (- 18000000))
                (toLocal (fixedZone (- 18000000)) 928800000 + int 3 * 86400000))
             div 86400000 + 4) mod 7 \<in> set (daysOfWeek ?d2)
      \<and> 928800000 < fromLocal (fixedZone (- 18000000))
          (toLocal (fixedZone (- 18000000))
             (fromLocal (fixedZone (- 18000000))
                (toLocal (fixedZone (- 18000000)) 928800000 + int 3 * 86400000))
             div 86400000 * 86400000 + 12 * 3600000 + 30 * 60000) - 15 * 60000"
    by (simp add: fixedZone_def)
  have three: "(3::nat) < 7" by simp
  note first = inst [THEN conjunct2, THEN conjunct2, THEN conjunct1, rule_format,
      OF mono [rule_format] r2 three sel3]
  show ?thesis
    by (intro conjI r1 r2 r3 first) simp_all
qed

section \<open>Firing and snoozing\<close>

lemma getDueSchedules_set:
  "set (getDueSchedules now ss) = {s \<in> set ss. isDue now s}"
  by (simp add: getDueSchedules_def)

lemma calculateNextTrigger_future:
  assumes "calculateNextTrigger z now data r = Some t"
  shows "now < t"
proof (cases "type data")
  case Once
  with assms show ?thesis
    by (auto simp: calculateNextTrigger_def Let_def split: option.splits if_splits)
next
  case Recurring
  with assms obtain hm where "checkDays z now hm (sort (daysOfWeek data)) (r * 60 * 1000) 0 = Some t"
    by (auto simp: calculateNextTrigger_def Let_def split: option.splits if_splits)
  from checkDays_Some [OF this] show ?thesis by blast
qed

text \<open>
  C5. With the 30 s window, and a clock at least 30 s past the epoch, a schedule is fired by
  the poll (it passes the filter of \<^verbatim>\<open>getDueSchedules\<close> and the snooze test of
  \<^verbatim>\<open>checkSchedules\<close>) iff it is enabled, has a trigger instant \<open>t\<close> with
  \<open>now - 30 s < t \<le> now\<close>, was last triggered strictly before \<open>t\<close> or never, and has no
  snooze entry that ends after \<open>now\<close>.
\<close>

theorem due_iff:
  assumes "30000 \<le> now"
  shows "(isDue now s \<and> \<not> stillSnoozed snoozed now (schedule_id s)) \<longleftrightarrow>
         (enabled (settings s)
          \<and> (\<exists>t. nextTriggerAt (metadata s) = Some t \<and> t \<le> now \<and> now - 30000 < t
                 \<and> (\<forall>l. lastTriggeredAt (metadata s) = Some l \<longrightarrow> l < t))
          \<and> \<not> (\<exists>e. snoozed (schedule_id s) = Some e \<and> now < e))"
proof -
  have snz: "stillSnoozed snoozed now (schedule_id s) \<longleftrightarrow>
      (\<exists>e. snoozed (schedule_id s) = Some e \<and> now < e)"
    using assms by (auto simp: stillSnoozed_def split: option.splits)
  have due: "isDue now s \<longleftrightarrow>
      (enabled (settings s)
          \<and> (\<exists>t. nextTriggerAt (metadata s) = Some t \<and> t \<le> now \<and> now - 30000 < t
                 \<and> (\<forall>l. lastTriggeredAt (metadata s) = Some l \<longrightarrow> l < t)))"
    using assms by (auto simp: isDue_def Let_def split: option.splits)
  show ?thesis unfolding snz due by blast
qed

theorem due_iff_witness:
  "(30000::int) \<le> 1000000
   \<and> (isDue 1000000 (mondays None (Some (1000000 - 5000)))
        \<and> \<not> stillSnoozed Map.empty 1000000 (schedule_id (mondays None (Some (1000000 - 5000)))))
   \<and> \<not> isDue 1000000 (mondays (Some (1000000 - 5000)) (Some (1000000 - 5000)))"
proof -
  have h: "(30000::int) \<le> 1000000" by simp
  from due_iff [OF h, of "mondays None (Some (1000000 - 5000))" Map.empty]
  have a: "isDue 1000000 (mondays None (Some (1000000 - 5000)))
        \<and> \<not> stillSnoozed Map.empty 1000000 (schedule_id (mondays None (Some (1000000 - 5000))))"
    by simp
  from due_iff [OF h, of "mondays (Some (1000000 - 5000)) (Some (1000000 - 5000))" Map.empty]
  have b: "\<not> isDue 1000000 (mondays (Some (1000000 - 5000)) (Some (1000000 - 5000)))"
    by (simp add: stillSnoozed_def)
  from h a b show ?thesis by blast
qed

lemma snooze_schedules: "schedules (snooze now i m st) = schedules st"
  by (simp add: snooze_def)

lemma snooze_entry: "snoozedSchedules (snooze now i m st) i = Some (now + m * 60000)"
  by (simp add: snooze_def)

lemma triggerSchedule_snoozed:
  "snoozedSchedules (triggerSchedule z now s missed st) = snoozedSchedules st"
  by (simp add: triggerSchedule_def split: option.splits)

lemma triggerSchedule_notifications:
  "notifications (triggerSchedule z now s missed st) = notifications st
   \<or> notifications (triggerSchedule z now s missed st) = notifications st @ [(schedule_id s, missed)]"
  by (simp add: triggerSchedule_def split: option.splits)

lemma checkOne_snoozed:
  assumes "stillSnoozed (snoozedSchedules st) now i"
  shows "stillSnoozed (snoozedSchedules (checkOne z now st s)) now i
       \<and> filter (\<lambda>n. fst n = i) (notifications (checkOne z now st s))
           = filter (\<lambda>n. fst n = i) (notifications st)"
proof (cases "schedule_id s = i")
  case True
  with assms show ?thesis by (simp add: checkOne_def)
next
  case False
  show ?thesis
  proof (cases "stillSnoozed (snoozedSchedules st) now (schedule_id s)")
    case True
    with assms show ?thesis by (simp add: checkOne_def)
  next
    case notsn: False
    let ?st' = "st\<lparr>snoozedSchedules := (snoozedSchedules st)(schedule_id s := None)\<rparr>"
    from assms False have "stillSnoozed (snoozedSchedules ?st') now i"
      by (simp add: stillSnoozed_def)
    moreover have "filter (\<lambda>n. fst n = i) (notifications (triggerSchedule z now s False ?st'))
           = filter (\<lambda>n. fst n = i) (notifications st)"
      using triggerSchedule_notifications [of z now s False ?st'] False by auto
    ultimately show ?thesis
      using notsn by (simp add: checkOne_def triggerSchedule_snoozed)
  qed
qed

lemma foldl_checkOne_snoozed:
  "stillSnoozed (snoozedSchedules st) now i \<Longrightarrow>
   filter (\<lambda>n. fst n = i) (notifications (foldl (checkOne z now) st ds))
     = filter (\<lambda>n. fst n = i) (notifications st)"
proof (induction ds arbitrary: st)
  case Nil
  show ?case by simp
next
  case (Cons d ds)
  from checkOne_snoozed [OF Cons.prems, of z d]
  have a: "stillSnoozed (snoozedSchedules (checkOne z now st d)) now i"
    and b: "filter (\<lambda>n. fst n = i) (notifications (checkOne z now st d))
           = filter (\<lambda>n. fst n = i) (notifications st)"
    by simp_all
  from Cons.IH [OF a] b show ?case by simp
qed

lemma checkSchedules_skips_snoozed:
  "stillSnoozed (snoozedSchedules st) now i \<Longrightarrow>
   filter (\<lambda>n. fst n = i) (notifications (checkSchedules z now st))
     = filter (\<lambda>n. fst n = i) (notifications st)"
  unfolding checkSchedules_def by (rule foldl_checkOne_snoozed)

lemma elapsed_snooze_not_due:
  assumes "nextTriggerAt (metadata s) = Some t" and "t \<le> snoozedAt" and "1 \<le> m"
    and "snoozedAt + m * 60000 \<le> now"
  shows "\<not> isDue now s"
  using assms by (auto simp: isDue_def Let_def)

text \<open>
  C2. A schedule whose trigger instant 1000000 has arrived is snoozed for 5 minutes at
  1005000: the entry ends at 1305000 and the stored schedule, \<^verbatim>\<open>nextTriggerAt\<close> included,
  is unchanged. While the entry is in the future the poll \<^verbatim>\<open>checkSchedules\<close> stays silent
  (\<open>checkSchedules_skips_snoozed\<close> shows this for every state), but the recovery scan
  \<^verbatim>\<open>checkMissedReminders\<close> never reads the snooze map and fires the schedule as a missed
  reminder. Once the entry has ended, neither path fires: the instant is older than the
  30 s poll window and the 5 min recovery window (\<open>elapsed_snooze_not_due\<close>).
\<close>

theorem snoozed_schedule_fired_by_recovery:
  "isDue 1005000 (mondays None (Some 1000000))
   \<and> snoozedSchedules (snooze 1005000 ''s1'' 5 (appWith (mondays None (Some 1000000)))) ''s1''
       = Some 1305000
   \<and> schedules (snooze 1005000 ''s1'' 5 (appWith (mondays None (Some 1000000))))
       = [mondays None (Some 1000000)]
   \<and> notifications (checkSchedules (fixedZone 0) 1005000
        (snooze 1005000 ''s1'' 5 (appWith (mondays None (Some 1000000))))) = []
   \<and> notifications (checkMissedReminders (fixedZone 0) 1005000
        (snooze 1005000 ''s1'' 5 (appWith (mondays None (Some 1000000))))) = [(''s1'', True)]
   \<and> notifications (checkSchedules (fixedZone 0) 1305000
        (snooze 1005000 ''s1'' 5 (appWith (mondays None (Some 1000000))))) = []
   \<and> notifications (checkMissedReminders (fixedZone 0) 1305000
        (snooze 1005000 ''s1'' 5 (appWith (mondays None (Some 1000000))))) = []"
  by code_simp

section \<open>Marking a schedule as triggered\<close>

lemma markOne_last: "lastTriggeredAt (metadata (markOne z t1 t2 s)) = Some t1"
  by (simp add: markOne_def Let_def split: timing_type.splits)

lemma markOne_once:
  "type (timing s) = Once \<Longrightarrow>
   \<not> enabled (settings (markOne z t1 t2 s)) \<and> nextTriggerAt (metadata (markOne z t1 t2 s)) = None"
  by (simp add: markOne_def Let_def)

lemma markOne_recurring:
  assumes "type (timing s) = Recurring" and "t1 \<le> t2"
    and "nextTriggerAt (metadata (markOne z t1 t2 s)) = Some n"
  shows "t1 < n"
proof -
  from assms(1,3) have "calculateNextTrigger z t2 ((timing s)\<lparr>dateTime := None\<rparr>)
      (reminderMinutesBefore (settings s)) = Some n"
    by (simp add: markOne_def Let_def)
  from calculateNextTrigger_future [OF this] assms(2) show ?thesis by simp
qed

lemma markOne_last_mono:
  "t1 \<le> t1' \<Longrightarrow>
   (case lastTriggeredAt (metadata (markOne z t1 t2 s)) of Some l \<Rightarrow> l | None \<Rightarrow> 0)
   \<le> (case lastTriggeredAt (metadata (markOne z t1' t2' (markOne z t1 t2 s))) of
         Some l \<Rightarrow> l | None \<Rightarrow> 0)"
  by (simp add: markOne_last)

text \<open>
  C6. A weekly schedule for Mondays at 12:00 is due on Monday at 12:00:05 (timestamp
  388805000, in the zone with offset 0). \<^verbatim>\<open>markTriggered\<close> stores that instant as
  \<^verbatim>\<open>lastTriggeredAt\<close> and recomputes \<^verbatim>\<open>nextTriggerAt\<close>: today's candidate is not after
  \<open>now\<close>, the loop stops at today + 6, one day short of next Monday, and the result is
  \<^verbatim>\<open>null\<close>. The same happens when the poll fires the schedule. (The other parts hold:
  \<open>markOne_once\<close>, \<open>markOne_last\<close>, \<open>markOne_last_mono\<close>, and a recomputed instant, when there
  is one, is later than \<^verbatim>\<open>lastTriggeredAt\<close>: \<open>markOne_recurring\<close>.)
\<close>

theorem weekly_schedule_not_rescheduled:
  "getDay (checkDay (fixedZone 0) 388805000 0) = 1
   \<and> isDue 388805000 (mondays None (Some 388800000))
   \<and> markTriggered (fixedZone 0) 388805000 388805000 ''s1'' [mondays None (Some 388800000)]
       = [mondays (Some 388805000) None]
   \<and> schedules (checkSchedules (fixedZone 0) 388805000 (appWith (mondays None (Some 388800000))))
       = [mondays (Some 388805000) None]"
  by code_simp

section \<open>Fuzzy matching\<close>

lemma char_eq_code: "c = d \<longleftrightarrow> (of_char c :: nat) = of_char d"
  by (metis char_of_char)

lemma isSpaceChar_code:
  "isSpaceChar c \<longleftrightarrow> (9 \<le> (of_char c :: nat) \<and> (of_char c :: nat) \<le> 13)
     \<or> (of_char c :: nat) = 32 \<or> (of_char c :: nat) = 160"
  by (simp add: isSpaceChar_def char_eq_code [of c "CHR '' ''"])


lemma of_char_toLowerChar:
  "(of_char (toLowerChar c) :: nat) =
     (if isUpper c \<or> isAccentedUpper c then of_char c + 32 else of_char c)"
  by (auto simp: toLowerChar_def isUpper_def isAccentedUpper_def)

lemma isSpaceChar_toLowerChar: "isSpaceChar (toLowerChar c) \<longleftrightarrow> isSpaceChar c"
  unfolding isSpaceChar_code of_char_toLowerChar
  by (auto simp: isUpper_def isAccentedUpper_def)





subsection \<open>Trimming\<close>

lemma dropWhile_toLowerCase:
  "dropWhile isSpaceChar (toLowerCase s) = toLowerCase (dropWhile isSpaceChar s)"
  by (induction s) (simp_all add: toLowerCase_def isSpaceChar_toLowerChar)

lemma trim_toLowerCase: "trim (toLowerCase s) = toLowerCase (trim s)"
proof -
  have r: "rev (toLowerCase xs) = toLowerCase (rev xs)" for xs
    by (simp add: toLowerCase_def rev_map)
  show ?thesis
    by (simp add: trim_def dropWhile_toLowerCase r)
qed








subsection \<open>Collapsing whitespace\<close>





subsection \<open>Substrings and splitting\<close>

lemma startsWith_prefix: "startsWith hay needle \<longleftrightarrow> prefix needle hay"
  by (induction hay needle rule: startsWith.induct) auto

lemma includes_str_sublist: "includes_str hay needle \<longleftrightarrow> sublist needle hay"
  by (induction hay) (auto simp: startsWith_prefix sublist_Cons_right)

lemma includes_str_iff: "includes_str hay needle \<longleftrightarrow> (\<exists>before after. hay = before @ needle @ after)"
  by (simp add: includes_str_sublist sublist_def)








subsection \<open>Normalisation\<close>

lemma set_collapseSpaces:
  "set (collapseSpaces xs) \<subseteq> {c \<in> set xs. \<not> isSpaceChar c} \<union> {CHR '' ''}"
proof (induction xs rule: collapseSpaces.induct)
  case 1
  show ?case by simp
next
  case (2 c cs)
  show ?case
  proof (cases "isSpaceChar c")
    case True
    from "2.IH"(1) [OF True] have "set (collapseSpaces (dropWhile isSpaceChar cs))
        \<subseteq> {c \<in> set cs. \<not> isSpaceChar c} \<union> {CHR '' ''}"
      using set_dropWhileD by fastforce
    with True show ?thesis by auto
  next
    case False
    with "2.IH"(2) [OF False] show ?thesis by auto
  qed
qed













subsection \<open>Matching\<close>





text \<open>
  Outside those conditions the code goes its own way. \<^verbatim>\<open>trim\<close> runs before the punctuation
  is stripped, so a candidate that begins with punctuation keeps a leading space, splitting
  then yields an empty piece, and every query word contains the empty piece: such a candidate
  matches every query with a word longer than two characters. And a query of punctuation
  only normalises to the empty string, which every candidate contains.
\<close>

lemma leading_punctuation_matches_anything:
  "normalize_str ''! Salad'' = '' salad''
   \<and> split_space '' salad'' = ['''', ''salad'']
   \<and> fuzzyMatch ''! Salad'' ''Burger''
   \<and> normalize_str ''!!!'' = [] \<and> fuzzyMatch ''Salad'' ''!!!''"
  by code_simp


section \<open>Counting the items added\<close>

lemma tryAddItem_result:
  "tryAddItem b page x =
     (if fst (trySearchAndAdd b page x) then (True, snd (trySearchAndAdd b page x))
      else (fst (tryScrollAndFind b (snd (trySearchAndAdd b page x)) x),
            snd (tryScrollAndFind b (snd (trySearchAndAdd b page x)) x)))"
  by (simp add: tryAddItem_def Let_def split: prod.splits)

lemma addItems_count:
  "fst (addItems b page its n) = n + length (filter (\<lambda>ok. ok) (cascadeResults b page its))"
proof (induction its arbitrary: page n)
  case Nil
  show ?case by simp
next
  case (Cons x xs)
  have c: "cascadeResults b page (x # xs)
      = fst (tryAddItem b page x) # cascadeResults b (snd (tryAddItem b page x)) xs"
    by (simp add: tryAddItem_result)
  show ?case
    unfolding c by (simp add: case_prod_beta Cons.IH)
qed

lemma length_cascadeResults: "length (cascadeResults b page its) = length its"
  by (induction its arbitrary: page) simp_all

lemma cascadeResults_none:
  assumes "\<And>page x. \<not> fst (trySearchAndAdd b page x) \<and> \<not> fst (tryScrollAndFind b page x)"
  shows "filter (\<lambda>ok. ok) (cascadeResults b page its) = []"
  by (induction its arbitrary: page) (simp_all add: assms)

lemma cascadeResults_all:
  assumes "(\<forall>page x. fst (trySearchAndAdd b page x))
         \<or> (\<forall>page x. fst (tryScrollAndFind b page x))"
  shows "filter (\<lambda>ok. ok) (cascadeResults b page its) = cascadeResults b page its"
  using assms by (induction its arbitrary: page) auto

lemma automateOrder_launches: "snd (automateOrder b u its n) = n + 1"
  by (simp add: automateOrder_def split: sum.splits prod.splits)

text \<open>
  C10. When \<^verbatim>\<open>automateOrder\<close> returns a result (no session-level error), the session steps
  have succeeded and the count \<^verbatim>\<open>itemsAdded\<close> is the number of requested items whose
  resolution cascade succeeded on the page the session reached: it starts at 0 and grows by
  one for exactly those items. So it lies between 0 and the number of requested items; it is
  0 when no strategy ever succeeds, and it is the number of requested items when one of the
  two strategies always does.
\<close>

theorem itemsAdded_bounded:
  assumes "automateOrder b u its n = (Inr result, n')"
  shows "(\<exists>page pageUrl page1 page2.
            launch b = Inr page \<and> goto b page u = Inr (pageUrl, page1)
            \<and> (if loginPrompt b page1 then waitForLogin b page1 else Inr page1) = Inr page2
            \<and> itemsAdded result = length (filter (\<lambda>ok. ok) (cascadeResults b page2 its))
            \<and> length (cascadeResults b page2 its) = length its)
       \<and> 0 \<le> itemsAdded result \<and> itemsAdded result \<le> length its
       \<and> ((\<forall>page x. \<not> fst (trySearchAndAdd b page x) \<and> \<not> fst (tryScrollAndFind b page x))
            \<longrightarrow> itemsAdded result = 0)
       \<and> ((\<forall>page x. fst (trySearchAndAdd b page x))
              \<or> (\<forall>page x. fst (tryScrollAndFind b page x))
            \<longrightarrow> itemsAdded result = length its)"
proof -
  from assms obtain page pageUrl page1 page2 where session:
    "launch b = Inr page" "goto b page u = Inr (pageUrl, page1)"
    "(if loginPrompt b page1 then waitForLogin b page1 else Inr page1) = Inr page2"
    and count: "itemsAdded result = (if its = [] then 0 else fst (addItems b page2 its 0))"
    by (auto simp: automateOrder_def split: sum.splits prod.splits if_splits)
  have c: "itemsAdded result = length (filter (\<lambda>ok. ok) (cascadeResults b page2 its))"
    unfolding count by (cases its) (simp_all add: addItems_count del: addItems.simps)
  have l: "length (cascadeResults b page2 its) = length its"
    by (rule length_cascadeResults)
  have upper: "itemsAdded result \<le> length its"
    unfolding c l [symmetric] by (rule length_filter_le)
  have none: "itemsAdded result = 0"
    if "\<forall>page x. \<not> fst (trySearchAndAdd b page x) \<and> \<not> fst (tryScrollAndFind b page x)"
    unfolding c using cascadeResults_none [of b page2 its] that by simp
  have all: "itemsAdded result = length its"
    if "(\<forall>page x. fst (trySearchAndAdd b page x))
          \<or> (\<forall>page x. fst (tryScrollAndFind b page x))"
    unfolding c using cascadeResults_all [OF that, of page2 its] l by simp
  from session c l upper none all show ?thesis by blast
qed

theorem itemsAdded_bounded_witness:
  "automateOrder (siteResolving [''A'', ''C''])
     ''https://www.doordash.com/store/cafe-12345/'' [''A'', ''B'', ''C''] 0
     = (Inr \<lparr>success = True, message = ''Added 2 of 3 items to cart'', itemsAdded = 2\<rparr>, 1)
   \<and> cascadeResults (siteResolving [''A'', ''C'']) () [''A'', ''B'', ''C'']
       = [True, False, True]
   \<and> itemsAdded \<lparr>success = True, message = ''Added 2 of 3 items to cart'', itemsAdded = 2\<rparr>
       \<le> length [''A'', ''B'', ''C'']
   \<and> automateOrder (siteResolving [])
     ''https://www.doordash.com/store/cafe-12345/'' [''A'', ''B'', ''C''] 0
     = (Inr \<lparr>success = True, message = ''Added 0 of 3 items to cart'', itemsAdded = 0\<rparr>, 1)"
proof -
  have run: "automateOrder (siteResolving [''A'', ''C''])
     ''https://www.doordash.com/store/cafe-12345/'' [''A'', ''B'', ''C''] 0
     = (Inr \<lparr>success = True, message = ''Added 2 of 3 items to cart'', itemsAdded = 2\<rparr>, 1)"
    by code_simp
  have outcomes: "cascadeResults (siteResolving [''A'', ''C'']) () [''A'', ''B'', ''C'']
       = [True, False, True]"
    by code_simp
  have run0: "automateOrder (siteResolving [])
     ''https://www.doordash.com/store/cafe-12345/'' [''A'', ''B'', ''C''] 0
     = (Inr \<lparr>success = True, message = ''Added 0 of 3 items to cart'', itemsAdded = 0\<rparr>, 1)"
    by code_simp
  note upper = itemsAdded_bounded [OF run, THEN conjunct2, THEN conjunct2, THEN conjunct1]
  show ?thesis
    by (intro conjI run outcomes upper run0)
qed

section \<open>The logged outcome\<close>

lemma loggedOutcome_cases:
  "loggedOutcome (Some f) r =
     (if f = 0 then (r, if r = 0 then Failed else Completed)
      else (f, if f < r then Partial else Completed))"
  by (simp add: loggedOutcome_def)

text \<open>
  C1. One order through the whole path: \<^verbatim>\<open>triggerOrder\<close> on the page, the handler of
  \<^verbatim>\<open>POST /api/order\<close>, \<^verbatim>\<open>automateOrder\<close>. With the items A and B requested and none added,
  the server answers \<^verbatim>\<open>itemsAdded: 0\<close> and the page logs 2 items added with status
  completed; with no item requested the page logs status failed. With only A resolved it logs
  1 item and status partial, as claimed.
\<close>

theorem nothing_added_logged_completed:
  "body_itemsAdded (body (fst (postOrder parseExample (siteResolving []) False
       \<lparr>req_storeUrl = Some ''https://www.doordash.com/store/cafe-12345/'',
        req_storeName = Some ''Cafe'', req_items = Some [''A'', ''B''],
        req_specialInstructions = Some ''''\<rparr> 0))) = Some 0
   \<and> map (\<lambda>h. (h_itemsAdded h, h_status h))
        (history (snd (triggerOrder (lunch [''A'', ''B'']) ''manual'' True
           (\<lambda>req. Inr (fst (postOrder parseExample (siteResolving []) False req 0)))
           initialClient))) = [(2, Completed)]
   \<and> map (\<lambda>h. (h_itemsAdded h, h_status h))
        (history (snd (triggerOrder (lunch []) ''manual'' True
           (\<lambda>req. Inr (fst (postOrder parseExample (siteResolving []) False req 0)))
           initialClient))) = [(0, Failed)]
   \<and> map (\<lambda>h. (h_itemsAdded h, h_status h))
        (history (snd (triggerOrder (lunch [''A'', ''B'']) ''manual'' True
           (\<lambda>req. Inr (fst (postOrder parseExample (siteResolving [''A'']) False req 0)))
           initialClient))) = [(1, Partial)]"
  by code_simp

section \<open>The responses of the order endpoint\<close>

text \<open>
  The handler answers 400 without launching the browser when the store URL is missing or
  empty, does not parse, or has a host name in which the text \<^verbatim>\<open>doordash.com\<close> does not
  occur. Otherwise \<^verbatim>\<open>automateOrder\<close> runs once: a result, whatever its count, gives 200
  with \<^verbatim>\<open>success\<close>, \<^verbatim>\<open>message\<close> and \<^verbatim>\<open>itemsAdded\<close>; an error gives 500 with \<^verbatim>\<open>error\<close>, and
  with \<^verbatim>\<open>details\<close> in development mode only.
\<close>

lemma postOrder_responses:
  assumes "R = postOrder newURL b development req n"
  shows "(req_storeUrl req = None \<or> req_storeUrl req = Some []
          \<or> (\<exists>u. req_storeUrl req = Some u
                \<and> (newURL u = None
                    \<or> (\<exists>p. newURL u = Some p \<and> \<not> includes_str (hostname p) ''doordash.com'')))
          \<longrightarrow> status (fst R) = 400 \<and> body_error (body (fst R)) \<noteq> None \<and> snd R = n)
       \<and> (\<forall>u p. req_storeUrl req = Some u \<and> u \<noteq> [] \<and> newURL u = Some p
                \<and> includes_str (hostname p) ''doordash.com'' \<longrightarrow>
            snd R = n + 1
            \<and> (case fst (automateOrder b u
                          (case req_items req of Some its \<Rightarrow> its | None \<Rightarrow> []) n) of
                 Inr result \<Rightarrow>
                   status (fst R) = 200
                   \<and> body_success (body (fst R)) = Some True
                   \<and> body_message (body (fst R)) \<noteq> None
                   \<and> body_itemsAdded (body (fst R)) = Some (itemsAdded result)
                   \<and> body_error (body (fst R)) = None
               | Inl err \<Rightarrow>
                   status (fst R) = 500
                   \<and> body_error (body (fst R)) \<noteq> None
                   \<and> body_success (body (fst R)) = None
                   \<and> (body_details (body (fst R)) \<noteq> None \<longleftrightarrow> development)))"
proof -
  have rejected: "status (fst R) = 400 \<and> body_error (body (fst R)) \<noteq> None \<and> snd R = n"
    if "req_storeUrl req = None \<or> req_storeUrl req = Some []
          \<or> (\<exists>u. req_storeUrl req = Some u
                \<and> (newURL u = None
                    \<or> (\<exists>p. newURL u = Some p \<and> \<not> includes_str (hostname p) ''doordash.com'')))"
    using that unfolding assms
    by (auto simp: postOrder_def errorResponse_def emptyBody_def split: option.splits)
  have accepted: "snd R = n + 1
            \<and> (case fst (automateOrder b u
                          (case req_items req of Some its \<Rightarrow> its | None \<Rightarrow> []) n) of
                 Inr result \<Rightarrow>
                   status (fst R) = 200
                   \<and> body_success (body (fst R)) = Some True
                   \<and> body_message (body (fst R)) \<noteq> None
                   \<and> body_itemsAdded (body (fst R)) = Some (itemsAdded result)
                   \<and> body_error (body (fst R)) = None
               | Inl err \<Rightarrow>
                   status (fst R) = 500
                   \<and> body_error (body (fst R)) \<noteq> None
                   \<and> body_success (body (fst R)) = None
                   \<and> (body_details (body (fst R)) \<noteq> None \<longleftrightarrow> development))"
    if "req_storeUrl req = Some u" "u \<noteq> []" "newURL u = Some p"
      "includes_str (hostname p) ''doordash.com''" for u p
  proof -
    let ?its = "case req_items req of Some its \<Rightarrow> its | None \<Rightarrow> []"
    obtain res n' where run: "automateOrder b u ?its n = (res, n')"
      by (cases "automateOrder b u ?its n")
    with automateOrder_launches [of b u ?its n] have n': "n' = n + 1" by simp
    show ?thesis
    proof (cases res)
      case (Inl err)
      with that run n' show ?thesis
        unfolding assms by (simp add: postOrder_def emptyBody_def)
    next
      case (Inr result)
      with that run n' show ?thesis
        unfolding assms by (simp add: postOrder_def emptyBody_def)
    qed
  qed
  from rejected accepted show ?thesis by blast
qed

text \<open>
  C9. A request whose store URL is \<^verbatim>\<open>https://doordash.com.evil.org/menu\<close> names no DoorDash
  store: its host is \<^verbatim>\<open>doordash.com.evil.org\<close>, which is neither \<^verbatim>\<open>doordash.com\<close> nor
  \<^verbatim>\<open>www.doordash.com\<close>, and the repository's own \<^verbatim>\<open>isValidDoorDashUrl\<close> rejects it. The
  claim asks for 400 and an untouched browser; the handler, whose test is that the host name
  contains \<^verbatim>\<open>doordash.com\<close>, launches the browser once and answers 200 with
  \<^verbatim>\<open>success: true\<close>.
\<close>

theorem foreign_host_accepted:
  "parseExample ''https://doordash.com.evil.org/menu''
     = Some \<lparr>hostname = ''doordash.com.evil.org'', pathname = ''/menu''\<rparr>
   \<and> \<not> isValidDoorDashUrl parseExample ''https://doordash.com.evil.org/menu''
   \<and> status (fst (postOrder parseExample (siteResolving []) False
       \<lparr>req_storeUrl = Some ''https://doordash.com.evil.org/menu'', req_storeName = None,
        req_items = Some [], req_specialInstructions = None\<rparr> 0)) = 200
   \<and> body_success (body (fst (postOrder parseExample (siteResolving []) False
       \<lparr>req_storeUrl = Some ''https://doordash.com.evil.org/menu'', req_storeName = None,
        req_items = Some [], req_specialInstructions = None\<rparr> 0))) = Some True
   \<and> snd (postOrder parseExample (siteResolving []) False
       \<lparr>req_storeUrl = Some ''https://doordash.com.evil.org/menu'', req_storeName = None,
        req_items = Some [], req_specialInstructions = None\<rparr> 0) = 1"
  by code_simp

section \<open>One execution at a time\<close>

lemma triggerOrder_finally_flags:
  "\<not> isAutomating (triggerOrder_finally c) \<and> running (triggerOrder_finally c) = running c - 1"
  by (simp add: triggerOrder_finally_def)

lemma failedOrder_flags:
  "\<not> isAutomating (snd (failedOrder fav by err c))
   \<and> running (snd (failedOrder fav by err c)) = running c - 1"
  by (simp add: failedOrder_def triggerOrder_finally_def)

lemma triggerOrder_run_flags:
  "\<not> isAutomating (snd (triggerOrder_run fav by health server c))
   \<and> running (snd (triggerOrder_run fav by health server c)) = running c - 1"
  by (simp add: triggerOrder_run_def Let_def failedOrder_flags triggerOrder_finally_def
      split: sum.splits prod.splits)

lemma reachable_invariant:
  "reachable c \<Longrightarrow> running c \<le> 1 \<and> (isAutomating c \<longleftrightarrow> running c = 1)"
proof (induction rule: reachable.induct)
  case start
  show ?case by (simp add: initialClient_def)
next
  case (request c)
  then show ?case by (auto simp: triggerOrder_enter_def)
next
  case (finish c fav triggeredBy health server)
  with triggerOrder_run_flags [of fav triggeredBy health server c] show ?case by auto
qed

text \<open>
  C8. In every state the page can reach, at most one invocation of \<^verbatim>\<open>triggerOrder\<close> is
  between its guard and its \<^verbatim>\<open>finally\<close> block; and while the flag \<^verbatim>\<open>isAutomating\<close> is
  set, a further call returns the failure \<^verbatim>\<open>Already automating\<close> at once and leaves the whole
  state as it was: no request is sent to the server, nothing is logged, nothing is kept for
  later.
\<close>

theorem one_execution_at_a_time:
  assumes "reachable c"
  shows "running c \<le> 1
       \<and> (isAutomating c \<longrightarrow>
            running c = 1
            \<and> triggerOrder fav triggeredBy health server c
                = (\<lparr>tr_success = False, tr_message = Some ''Already automating''\<rparr>, c))"
  using reachable_invariant [OF assms]
  by (simp add: triggerOrder_def triggerOrder_enter_def)

theorem one_execution_at_a_time_witness:
  "reachable (snd (triggerOrder_enter initialClient))
   \<and> isAutomating (snd (triggerOrder_enter initialClient))
   \<and> running (snd (triggerOrder_enter initialClient)) = 1
   \<and> triggerOrder (lunch [''A'', ''B'']) ''schedule'' True
        (\<lambda>req. Inr (fst (postOrder parseExample (siteResolving [''A'']) False req 0)))
        (snd (triggerOrder_enter initialClient))
       = (\<lparr>tr_success = False, tr_message = Some ''Already automating''\<rparr>,
          snd (triggerOrder_enter initialClient))
   \<and> fetches (snd (triggerOrder_enter initialClient)) = 0"
proof -
  have r: "reachable (snd (triggerOrder_enter initialClient))"
    by (rule reachable.request) (rule reachable.start)
  have flag: "isAutomating (snd (triggerOrder_enter initialClient))"
    by (simp add: triggerOrder_enter_def initialClient_def)
  have f: "fetches (snd (triggerOrder_enter initialClient)) = 0"
    by (simp add: triggerOrder_enter_def initialClient_def)
  note inst = one_execution_at_a_time [OF r, where fav = "lunch [''A'', ''B'']"
      and triggeredBy = "''schedule''" and health = True
      and server = "\<lambda>req. Inr (fst (postOrder parseExample (siteResolving [''A'']) False req 0))",
      THEN conjunct2, rule_format, OF flag]
  show ?thesis
    by (intro conjI r flag f inst [THEN conjunct1] inst [THEN conjunct2])
qed

end
